theory Spec2Isabelle
  imports Complex_Main "HOL-Library.Multiset" "HOL-Library.List_Lexorder" "HOL-Library.Char_ord"
    "HOL-Library.Log_Nat"
begin

section \<open>Data model\<close>

text \<open>
  The program \<^verbatim>\<open>visualize_hackernews.py\<close> reads a CSV of Hacker News stories into a
  pandas frame and draws four pie charts. A frame is modelled as the list of its rows, in
  row order. Numeric cells are rationals and the arithmetic on them is exact. The sums of
  the aggregator are modelled a second time on an int64 column, with the wrap-around and the
  final conversion to float64 written out, for the one property that depends on them.

  A cell of a text column holds what \<^verbatim>\<open>read_csv\<close> can put there: a string, the missing
  value NaN, or, when the whole column parsed as numbers or booleans, an integer, a boolean
  or a float. A float other than NaN is given by the text that Python's \<^verbatim>\<open>str\<close> makes of
  it, which is written with digits, a point, the signs, the letter e and the letters of
  \<^verbatim>\<open>inf\<close> and \<^verbatim>\<open>nan\<close>; how a float is formatted is not modelled.
\<close>

definition float_char :: "char \<Rightarrow> bool" where
  "float_char c = (c \<in> set ''0123456789.-+einfa'')"

typedef float_text = "{t :: string. list_all float_char t}"
  morphisms text_of Float_text
  by (rule exI [of _ "[]"]) simp

datatype cell = CStr string | CNaN | CInt int | CBool bool | CFloat float_text

datatype error = FileNotFoundError | ValueError string

text \<open>A row of the file as \<^verbatim>\<open>read_csv\<close> delivers it: Votes and Comments still as text.\<close>

record raw_story =
  raw_Title :: cell
  raw_URL :: cell
  raw_Votes :: string
  raw_Comments :: string

text \<open>
  A row of the loaded frame. The derived columns \<^verbatim>\<open>TitleShort\<close> and \<^verbatim>\<open>Domain\<close> are
  \<open>None\<close> while the frame does not have them.
\<close>

record story =
  Title :: cell
  URL :: cell
  Votes :: rat
  Comments :: rat
  TitleShort :: "string option"
  Domain_col :: "string option"

text \<open>
  The library functions the program calls and whose code is not part of it. The program is
  modelled for every such library.
  \<^item> \<open>sort_values\<close>: \<^verbatim>\<open>DataFrame.sort_values(value_col, ascending=False)\<close>, here on the
    rows already projected to (label, value); the row permutation pandas computes depends on
    the value column only, so the projection and the sort commute. The program passes no
    \<^verbatim>\<open>kind\<close>, so the order among equal values is whatever the default algorithm gives.
  \<^item> \<open>shorten\<close>: \<^verbatim>\<open>textwrap.shorten(text, width=w, placeholder="...")\<close>.
  \<^item> \<open>to_numeric\<close>: what \<^verbatim>\<open>pd.to_numeric(errors="coerce")\<close> makes of a cell's text,
    \<open>None\<close> for NaN.
  \<^item> \<open>bracketed_host_ok\<close>: whether \<^verbatim>\<open>urllib.parse._check_bracketed_host\<close> accepts the host
    between square brackets.
\<close>

record pylib =
  sort_values :: "(string \<times> rat) list \<Rightarrow> (string \<times> rat) list"
  shorten :: "nat \<Rightarrow> string \<Rightarrow> string"
  to_numeric :: "string \<Rightarrow> rat option"
  bracketed_host_ok :: "string \<Rightarrow> bool"

text \<open>What is known of \<open>sort_values\<close>: it permutes the rows and orders them descending by value.\<close>

definition desc_by_value :: "(string \<times> rat) list \<Rightarrow> bool" where
  "desc_by_value xs = sorted_wrt (\<lambda>a b. snd b \<le> snd a) xs"

definition desc_sorter :: "((string \<times> rat) list \<Rightarrow> (string \<times> rat) list) \<Rightarrow> bool" where
  "desc_sorter srt = (\<forall>xs. mset (srt xs) = mset xs \<and> desc_by_value (srt xs))"

text \<open>A sorter for evaluating examples: insertion sort on the negated value.\<close>

definition insertion_sort_desc :: "(string \<times> rat) list \<Rightarrow> (string \<times> rat) list" where
  "insertion_sort_desc xs = sort_key (\<lambda>p. - snd p) xs"

section \<open>The aggregator\<close>

text \<open>
  Lines 17 to 35 on a column of rationals, with exact sums. What is proved from these
  definitions (the lengths of the result, its order, the place of the synthetic slice) is
  stated relative to the remainder that line 26 computes and does not depend on the sums
  being exact. The sum of the sizes does, and is treated on an int64 column in the next
  section.
\<close>

text \<open>\<^verbatim>\<open>DataFrame.head(n)\<close>: the first \<open>n\<close> rows, and for negative \<open>n\<close> all but the last \<open>-n\<close>.\<close>

definition head_df :: "int \<Rightarrow> 'a list \<Rightarrow> 'a list" where
  "head_df n xs = (if 0 \<le> n then take (nat n) xs else take (length xs - nat (- n)) xs)"

text \<open>Line 24: \<^verbatim>\<open>ordered = df.sort_values(value_col, ascending=False)[[label_col, value_col]]\<close>.\<close>

definition ordered_rows ::
  "pylib \<Rightarrow> 'r list \<Rightarrow> ('r \<Rightarrow> rat) \<Rightarrow> ('r \<Rightarrow> string) \<Rightarrow> (string \<times> rat) list" where
  "ordered_rows L df value_col label_col = sort_values L (map (\<lambda>r. (label_col r, value_col r)) df)"

text \<open>Line 25: \<^verbatim>\<open>top = ordered.head(top_n)\<close>.\<close>

definition top_rows ::
  "pylib \<Rightarrow> 'r list \<Rightarrow> ('r \<Rightarrow> rat) \<Rightarrow> ('r \<Rightarrow> string) \<Rightarrow> int \<Rightarrow> (string \<times> rat) list" where
  "top_rows L df value_col label_col top_n = head_df top_n (ordered_rows L df value_col label_col)"

text \<open>Line 26: \<^verbatim>\<open>remainder = ordered[value_col].sum() - top[value_col].sum()\<close>.\<close>

definition remainder :: "pylib \<Rightarrow> 'r list \<Rightarrow> ('r \<Rightarrow> rat) \<Rightarrow> ('r \<Rightarrow> string) \<Rightarrow> int \<Rightarrow> rat" where
  "remainder L df value_col label_col top_n =
     sum_list (map snd (ordered_rows L df value_col label_col))
       - sum_list (map snd (top_rows L df value_col label_col top_n))"

text \<open>
  Lines 27 to 35: the synthetic row is appended when the remainder is positive. The final
  \<^verbatim>\<open>astype(float)\<close> does not change a rational.
\<close>

definition aggregate_top_share ::
  "pylib \<Rightarrow> 'r list \<Rightarrow> ('r \<Rightarrow> rat) \<Rightarrow> ('r \<Rightarrow> string) \<Rightarrow> int \<Rightarrow> string \<Rightarrow> string list \<times> rat list" where
  "aggregate_top_share L df value_col label_col top_n other_label =
     (let top = top_rows L df value_col label_col top_n;
          rem = remainder L df value_col label_col top_n;
          top' = (if 0 < rem then top @ [(other_label, rem)] else top)
      in (map fst top', map snd top'))"

section \<open>The aggregator on an int64 column\<close>

text \<open>
  pandas reads a column whose cells are all integers as int64. On such a column the sums
  of line 26 and their difference are int64 operations, which wrap around, and line 35
  converts the int64 sizes to float64, which rounds. The definitions of this section are
  lines 24 to 35 again with that arithmetic written out. A column with a cell that is not an
  integer is a float64 column; its sums round at every addition and are not modelled.
\<close>











section \<open>The loader\<close>

text \<open>
  Lines 59 to 61: Votes and Comments are coerced to numbers, a cell that does not parse
  becoming NaN (\<open>None\<close>).
\<close>

definition coerce_row :: "pylib \<Rightarrow> raw_story \<Rightarrow> cell \<times> cell \<times> rat option \<times> rat option" where
  "coerce_row L r = (raw_Title r, raw_URL r, to_numeric L (raw_Votes r), to_numeric L (raw_Comments r))"

text \<open>Line 62: \<^verbatim>\<open>dropna(subset=["Votes", "Comments"])\<close> keeps the rows with both cells present.\<close>

fun dropna_row :: "cell \<times> cell \<times> rat option \<times> rat option \<Rightarrow> story option" where
  "dropna_row (t, u, Some v, Some c) =
     Some \<lparr> Title = t, URL = u, Votes = v, Comments = c, TitleShort = None, Domain_col = None \<rparr>"
| "dropna_row (t, u, Some v, None) = None"
| "dropna_row (t, u, None, c) = None"

definition load_hackernews :: "pylib \<Rightarrow> raw_story list \<Rightarrow> story list" where
  "load_hackernews L raw = List.map_filter dropna_row (map (coerce_row L) raw)"

text \<open>
  Vocabulary for the loader's properties: a row of the file survives when both of its
  numeric cells parse, and the row it becomes.
\<close>

definition numeric_row :: "pylib \<Rightarrow> raw_story \<Rightarrow> bool" where
  "numeric_row L r = (to_numeric L (raw_Votes r) \<noteq> None \<and> to_numeric L (raw_Comments r) \<noteq> None)"

definition story_of_raw :: "pylib \<Rightarrow> raw_story \<Rightarrow> story" where
  "story_of_raw L r =
     \<lparr> Title = raw_Title r, URL = raw_URL r,
       Votes = the (to_numeric L (raw_Votes r)), Comments = the (to_numeric L (raw_Comments r)),
       TitleShort = None, Domain_col = None \<rparr>"

section \<open>Python's \<^verbatim>\<open>str\<close> on a cell\<close>

definition digit_char :: "nat \<Rightarrow> char" where
  "digit_char d = char_of (48 + d)"

fun str_nat :: "nat \<Rightarrow> string" where
  "str_nat n = (if n < 10 then [digit_char n] else str_nat (n div 10) @ [digit_char (n mod 10)])"

declare str_nat.simps [simp del]

definition str_int :: "int \<Rightarrow> string" where
  "str_int i = (if i < 0 then CHR ''-'' # str_nat (nat (- i)) else str_nat (nat i))"

fun str_cell :: "cell \<Rightarrow> string" where
  "str_cell (CStr s) = s"
| "str_cell CNaN = ''nan''"
| "str_cell (CInt i) = str_int i"
| "str_cell (CBool b) = (if b then ''True'' else ''False'')"
| "str_cell (CFloat t) = text_of t"

text \<open>Lines 12 to 14: \<^verbatim>\<open>series.apply(lambda title: shorten(str(title), width=width, ...))\<close>.\<close>

definition short_titles :: "pylib \<Rightarrow> cell list \<Rightarrow> nat \<Rightarrow> string list" where
  "short_titles L series width = map (\<lambda>title. shorten L width (str_cell title)) series"

section \<open>The domain extractor\<close>

text \<open>
  The network location that \<^verbatim>\<open>urllib.parse.urlparse(url).netloc\<close> returns, after
  \<^verbatim>\<open>urlsplit\<close> of CPython 3.11: leading C0 control characters and spaces are stripped, tab,
  CR and LF are removed, a scheme (a letter, then scheme characters, up to the first colon)
  is split off, and when the rest starts with two slashes the netloc runs to the first
  slash, question mark or hash. A netloc with one square bracket and not the other raises
  \<^verbatim>\<open>ValueError("Invalid IPv6 URL")\<close>; with both, the bracketed host is validated by the
  library, which raises a \<^verbatim>\<open>ValueError\<close> of its own when it rejects the host (its message
  depends on the reason and is written here as one fixed text). The later check of the
  netloc under NFKC normalisation rejects no string of characters below U+0100, which are
  the characters of \<^typ>\<open>string\<close>.
\<close>

definition c0_control_or_space :: "char \<Rightarrow> bool" where
  "c0_control_or_space c = ((of_char c :: nat) \<le> 32)"

definition unsafe_url_byte :: "char \<Rightarrow> bool" where
  "unsafe_url_byte c = (c = CHR 0x09 \<or> c = CHR 0x0D \<or> c = CHR 0x0A)"

definition ascii_alpha :: "char \<Rightarrow> bool" where
  "ascii_alpha c = ((97 \<le> (of_char c :: nat) \<and> (of_char c :: nat) \<le> 122)
                  \<or> (65 \<le> (of_char c :: nat) \<and> (of_char c :: nat) \<le> 90))"

definition scheme_char :: "char \<Rightarrow> bool" where
  "scheme_char c = (ascii_alpha c \<or> (48 \<le> (of_char c :: nat) \<and> (of_char c :: nat) \<le> 57)
                  \<or> c = CHR ''+'' \<or> c = CHR ''-'' \<or> c = CHR ''.'')"

definition netloc_delim :: "char \<Rightarrow> bool" where
  "netloc_delim c = (c = CHR ''/'' \<or> c = CHR ''?'' \<or> c = CHR ''#'')"

text \<open>The url with its scheme and colon removed, when it has a scheme.\<close>

definition strip_scheme :: "string \<Rightarrow> string" where
  "strip_scheme url =
     (let i = length (takeWhile (\<lambda>c. c \<noteq> CHR '':'') url)
      in if i < length url \<and> 0 < i \<and> ascii_alpha (hd url) \<and> list_all scheme_char (take i url)
         then drop (Suc i) url else url)"

text \<open>\<^verbatim>\<open>netloc.partition('[')[2].partition(']')[0]\<close>\<close>

definition bracketed_host :: "string \<Rightarrow> string" where
  "bracketed_host netloc =
     takeWhile (\<lambda>c. c \<noteq> CHR '']'') (drop 1 (dropWhile (\<lambda>c. c \<noteq> CHR ''['') netloc))"

definition urlparse_netloc :: "pylib \<Rightarrow> string \<Rightarrow> error + string" where
  "urlparse_netloc L url0 =
     (let url1 = dropWhile c0_control_or_space url0;
          url2 = filter (\<lambda>c. \<not> unsafe_url_byte c) url1;
          url3 = strip_scheme url2
      in if take 2 url3 = ''//'' then
           (let netloc = takeWhile (\<lambda>c. \<not> netloc_delim c) (drop 2 url3)
            in if (CHR ''['' \<in> set netloc \<and> CHR '']'' \<notin> set netloc)
                  \<or> (CHR '']'' \<in> set netloc \<and> CHR ''['' \<notin> set netloc)
               then Inl (ValueError ''Invalid IPv6 URL'')
               else if CHR ''['' \<in> set netloc \<and> CHR '']'' \<in> set netloc
                       \<and> \<not> bracketed_host_ok L (bracketed_host netloc)
               then Inl (ValueError ''Invalid bracketed host'')
               else Inr netloc)
         else Inr [])"

text \<open>Line 87: \<^verbatim>\<open>lambda url: urlparse(str(url)).netloc or "Unknown"\<close>. Nothing catches
  the exception of \<^verbatim>\<open>urlparse\<close>.\<close>

definition domain_of :: "pylib \<Rightarrow> cell \<Rightarrow> error + string" where
  "domain_of L url =
     (case urlparse_netloc L (str_cell url) of
        Inl e \<Rightarrow> Inl e
      | Inr netloc \<Rightarrow> Inr (if netloc = [] then ''Unknown'' else netloc))"

text \<open>\<^verbatim>\<open>Series.apply\<close> with a function that may raise: the first exception ends it.\<close>

fun apply_series :: "('a \<Rightarrow> error + 'b) \<Rightarrow> 'a list \<Rightarrow> error + 'b list" where
  "apply_series f [] = Inr []"
| "apply_series f (x # xs) =
     (case f x of
        Inl e \<Rightarrow> Inl e
      | Inr y \<Rightarrow> (case apply_series f xs of Inl e \<Rightarrow> Inl e | Inr ys \<Rightarrow> Inr (y # ys)))"

text \<open>
  Line 88: \<^verbatim>\<open>df.groupby("Domain", as_index=False)["Votes"].sum()\<close>: one row for each
  key, the keys in ascending order, with the sum of the values of the key's rows.
  \<open>column_sum\<close> is the sum that pandas computes for the rows of one key, here exact.
\<close>

definition column_sum :: "rat list \<Rightarrow> rat" where
  "column_sum xs = sum_list xs"

definition groupby_sum :: "(string \<times> rat) list \<Rightarrow> (string \<times> rat) list" where
  "groupby_sum kvs =
     map (\<lambda>k. (k, column_sum (map snd (filter (\<lambda>p. fst p = k) kvs))))
       (sort (remdups (map fst kvs)))"

text \<open>
  Vocabulary for the properties of the domain extractor: a cell that is not a string; the
  label of a row (the empty string when the extractor raises); the table of labels with
  their summed votes; a URL scheme; a character of a host written without brackets.
\<close>

definition not_string :: "cell \<Rightarrow> bool" where
  "not_string c = (case c of CStr s \<Rightarrow> False | _ \<Rightarrow> True)"

definition domain_label :: "pylib \<Rightarrow> story \<Rightarrow> string" where
  "domain_label L r = (case domain_of L (URL r) of Inr d \<Rightarrow> d | Inl e \<Rightarrow> [])"

definition domain_table :: "pylib \<Rightarrow> story list \<Rightarrow> (string \<times> rat) list" where
  "domain_table L df = groupby_sum (map (\<lambda>r. (domain_label L r, Votes r)) df)"

definition valid_scheme :: "string \<Rightarrow> bool" where
  "valid_scheme scheme = (scheme \<noteq> [] \<and> ascii_alpha (hd scheme) \<and> list_all scheme_char scheme)"

definition plain_host_char :: "char \<Rightarrow> bool" where
  "plain_host_char c = (\<not> netloc_delim c \<and> \<not> unsafe_url_byte c \<and> c \<noteq> CHR ''['' \<and> c \<noteq> CHR '']'')"

section \<open>The engagement classifier\<close>

text \<open>
  Line 96: \<^verbatim>\<open>df["Comments"] / df["Votes"].replace({0: pd.NA})\<close>. A zero in Votes becomes
  the missing value, and so does the quotient.
\<close>

definition engagement_ratio :: "story \<Rightarrow> rat option" where
  "engagement_ratio r = (if Votes r = 0 then None else Some (Comments r / Votes r))"

text \<open>Lines 95 to 97: the rows that have a ratio, each with its ratio.\<close>

definition engagement :: "story list \<Rightarrow> (story \<times> rat) list" where
  "engagement df = List.map_filter (\<lambda>r. map_option (Pair r) (engagement_ratio r)) df"

text \<open>
  \<^verbatim>\<open>pd.cut(x, bins, labels, include_lowest=True)\<close> with the default \<^verbatim>\<open>right=True\<close>, as
  pandas computes it: the position of \<open>x\<close> among the edges is the number of leading edges
  below it (\<^verbatim>\<open>searchsorted(side="left")\<close>); a value equal to the first edge is moved to
  position 1; positions 0 and \<open>length bins\<close> are outside every interval and give NaN.
\<close>

datatype bin_edge = Fin rat | PosInf

fun edge_less :: "bin_edge \<Rightarrow> rat \<Rightarrow> bool" where
  "edge_less (Fin b) x = (b < x)"
| "edge_less PosInf x = False"

definition pd_cut :: "bin_edge list \<Rightarrow> string list \<Rightarrow> rat \<Rightarrow> string option" where
  "pd_cut bins labels x =
     (let ids0 = length (takeWhile (\<lambda>b. edge_less b x) bins);
          ids = (if hd bins = Fin x then 1 else ids0)
      in if ids = length bins \<or> ids = 0 then None else Some (labels ! (ids - 1)))"

definition engagement_edges :: "bin_edge list" where
  "engagement_edges = [Fin 0, Fin (1 / 2), Fin 1, PosInf]"

definition engagement_labels :: "string list" where
  "engagement_labels = [''Quiet (<0.5)'', ''Balanced (0.5-1.0)'', ''Buzzing (>1.0)'']"

text \<open>Lines 102 to 107.\<close>

definition engagement_bins :: "rat \<Rightarrow> string option" where
  "engagement_bins x = pd_cut engagement_edges engagement_labels x"

text \<open>
  Line 108: \<^verbatim>\<open>value_counts().sort_index()\<close> of a categorical: every category, in category
  order, with the number of values in it; NaN is not counted.
\<close>

definition bucket_counts :: "string list \<Rightarrow> string option list \<Rightarrow> (string \<times> nat) list" where
  "bucket_counts labels cats = map (\<lambda>l. (l, length (filter (\<lambda>c. c = Some l) cats))) labels"

section \<open>The dashboard\<close>

datatype chart = Pie "string list" "rat list" string string | Placeholder string

record dashboard =
  ax_votes :: chart
  ax_comments :: chart
  ax_domains :: chart
  ax_ratio :: chart

text \<open>
  Lines 38 to 54. \<^verbatim>\<open>ax.pie\<close> raises \<^verbatim>\<open>ValueError\<close> when a size is negative, and when
  the sizes are all zero: it divides them by their sum and cannot draw the wedges that
  result (the message of that second exception depends on the matplotlib release and is
  written here as one fixed text). Otherwise the pie is drawn, and is recorded by what it
  is drawn from. An empty pie draws nothing.
\<close>

definition plot_pie :: "string list \<Rightarrow> rat list \<Rightarrow> string \<Rightarrow> string \<Rightarrow> error + chart" where
  "plot_pie labels sizes palette title =
     (if \<exists>x\<in>set sizes. x < 0
      then Inl (ValueError ''Wedge sizes 'x' must be non negative values'')
      else if sizes \<noteq> [] \<and> sum_list sizes = 0
      then Inl (ValueError ''cannot convert float NaN to integer'')
      else Inr (Pie labels sizes palette title))"

text \<open>
  Lines 95 to 110 and the arguments of the call at line 111, on the frame \<open>df\<close>: the
  placeholder, or the pie that the classifier hands over to be drawn.
\<close>

definition engagement_chart :: "story list \<Rightarrow> chart" where
  "engagement_chart df =
     (let eng = engagement df
      in if eng = [] then Placeholder ''No engagement data''
         else (let counts = bucket_counts engagement_labels (map (\<lambda>p. engagement_bins (snd p)) eng)
               in Pie (map fst counts) (map (\<lambda>p. of_nat (snd p)) counts)
                    ''Spectral'' ''Engagement Levels''))"

text \<open>Lines 99 to 100 draw the placeholder; line 111 draws the pie, which may raise.\<close>

fun draw_chart :: "chart \<Rightarrow> error + chart" where
  "draw_chart (Placeholder msg) = Inr (Placeholder msg)"
| "draw_chart (Pie labels sizes palette title) = plot_pie labels sizes palette title"

text \<open>Vocabulary: the exceptions that drawing a pie raises.\<close>

definition pie_error :: "error \<Rightarrow> bool" where
  "pie_error e = (e = ValueError ''Wedge sizes 'x' must be non negative values''
                \<or> e = ValueError ''cannot convert float NaN to integer'')"

text \<open>
  Frames are objects: the store holds them, a frame is named by its index in the store.
  \<^verbatim>\<open>df.copy()\<close> allocates a new frame; assigning a column changes the frame in place.
  Every other frame operation of the program returns a new frame and is a function of the
  rows.
\<close>

type_synonym store = "story list list"

definition frame_copy :: "nat \<Rightarrow> store \<Rightarrow> nat \<times> store" where
  "frame_copy a s = (length s, s @ [s ! a])"

definition set_TitleShort :: "nat \<Rightarrow> string list \<Rightarrow> store \<Rightarrow> store" where
  "set_TitleShort a vals s = s[a := map (\<lambda>(r, v). r\<lparr>TitleShort := Some v\<rparr>) (zip (s ! a) vals)]"

definition set_Domain :: "nat \<Rightarrow> string list \<Rightarrow> store \<Rightarrow> store" where
  "set_Domain a vals s = s[a := map (\<lambda>(r, v). r\<lparr>Domain_col := Some v\<rparr>) (zip (s ! a) vals)]"

text \<open>Lines 88 to 90, on the frame that has the Domain column.\<close>

definition domain_votes :: "story list \<Rightarrow> (string \<times> rat) list" where
  "domain_votes df = groupby_sum (map (\<lambda>r. (the (Domain_col r), Votes r)) df)"

text \<open>
  Lines 65 to 120. The argument is the caller's frame \<open>a\<close>; the result is the dashboard, or
  the exception that ended the function, and the store it leaves. The pies are drawn in
  program order, so the first call that raises ends the function: the pie of line 78, the
  pie of line 84, the domain extraction of line 87, the pie of line 92, the pie of line 111.
\<close>

definition plot_visualizations :: "pylib \<Rightarrow> nat \<Rightarrow> store \<Rightarrow> (error + dashboard) \<times> store" where
  "plot_visualizations L a s =
     (let (df, s1) = frame_copy a s;
          s2 = set_TitleShort df (short_titles L (map Title (s1 ! df)) 40) s1;
          (vote_labels, vote_sizes) =
             aggregate_top_share L (s2 ! df) Votes (\<lambda>r. the (TitleShort r)) 5 ''Other stories''
      in case plot_pie vote_labels vote_sizes ''crest'' ''Vote Share (Top Stories)'' of
           Inl e \<Rightarrow> (Inl e, s2)
         | Inr votes \<Rightarrow>
             (let (comment_labels, comment_sizes) =
                    aggregate_top_share L (s2 ! df) Comments (\<lambda>r. the (TitleShort r)) 5
                      ''Other stories''
              in case plot_pie comment_labels comment_sizes ''rocket''
                        ''Comment Share (Top Stories)'' of
                   Inl e \<Rightarrow> (Inl e, s2)
                 | Inr comments \<Rightarrow>
                     (case apply_series (domain_of L) (map URL (s2 ! df)) of
                        Inl e \<Rightarrow> (Inl e, s2)
                      | Inr domains \<Rightarrow>
                          (let s3 = set_Domain df domains s2;
                               (domain_labels, domain_sizes) =
                                  aggregate_top_share L (domain_votes (s3 ! df)) snd fst 6
                                    ''Other domains''
                           in case plot_pie domain_labels domain_sizes ''mako''
                                     ''Vote Share by Domain'' of
                                Inl e \<Rightarrow> (Inl e, s3)
                              | Inr doms \<Rightarrow>
                                  (case draw_chart (engagement_chart (s3 ! df)) of
                                     Inl e \<Rightarrow> (Inl e, s3)
                                   | Inr ratio \<Rightarrow>
                                       (Inr \<lparr> ax_votes = votes, ax_comments = comments,
                                               ax_domains = doms, ax_ratio = ratio \<rparr>, s3))))))"

text \<open>
  Lines 123 to 134. The file is \<open>None\<close> when the path does not exist, and otherwise the rows
  that \<^verbatim>\<open>read_csv\<close> delivers.
\<close>

definition main :: "pylib \<Rightarrow> raw_story list option \<Rightarrow> error + dashboard" where
  "main L file =
     (case file of
        None \<Rightarrow> Inl FileNotFoundError
      | Some raw \<Rightarrow>
          (let df = load_hackernews L raw
           in if df = [] then Inl (ValueError ''Dataset contains no valid numeric rows.'')
              else fst (plot_visualizations L 0 [df])))"

section \<open>A library for evaluating examples\<close>

text \<open>
  Each function agrees with the library on the inputs of the examples below: the sorter is
  a descending sort, a title of one short word is its own abbreviation, a string of digits
  is the number it writes and a string with a letter is not a number.
\<close>

definition digits_to_numeric :: "string \<Rightarrow> rat option" where
  "digits_to_numeric s =
     (if s \<noteq> [] \<and> list_all (\<lambda>c. 48 \<le> (of_char c :: nat) \<and> (of_char c :: nat) \<le> 57) s
      then Some (of_nat (foldl (\<lambda>acc c. 10 * acc + (of_char c - 48)) 0 s))
      else None)"

definition example_lib :: pylib where
  "example_lib = \<lparr> sort_values = insertion_sort_desc,
                   shorten = (\<lambda>w s. s),
                   to_numeric = digits_to_numeric,
                   bracketed_host_ok = (\<lambda>h. True) \<rparr>"

section \<open>Properties of the aggregator\<close>

lemma head_df_prefix: "\<exists>k. head_df n xs = take k xs"
  by (auto simp: head_df_def)

lemma ordered_rows_length:
  assumes "desc_sorter (sort_values L)"
  shows "length (ordered_rows L df value_col label_col) = length df"
proof -
  have "mset (ordered_rows L df value_col label_col) = mset (map (\<lambda>r. (label_col r, value_col r)) df)"
    using assms by (simp add: desc_sorter_def ordered_rows_def)
  then have "size (mset (ordered_rows L df value_col label_col))
      = size (mset (map (\<lambda>r. (label_col r, value_col r)) df))"
    by simp
  then show ?thesis by simp
qed

lemma remainder_is_rest:
  "\<exists>k. top_rows L df value_col label_col top_n = take k (ordered_rows L df value_col label_col)
     \<and> remainder L df value_col label_col top_n
         = sum_list (map snd (drop k (ordered_rows L df value_col label_col)))"
proof -
  obtain k where k: "head_df top_n (ordered_rows L df value_col label_col)
      = take k (ordered_rows L df value_col label_col)"
    using head_df_prefix by blast
  let ?o = "ordered_rows L df value_col label_col"
  have "sum_list (map snd ?o) = sum_list (map snd (take k ?o)) + sum_list (map snd (drop k ?o))"
    by (metis append_take_drop_id map_append sum_list_append)
  then show ?thesis
    using k by (auto simp: remainder_def top_rows_def)
qed

lemma insertion_sort_desc_sorter: "desc_sorter insertion_sort_desc"
proof -
  have "desc_by_value (insertion_sort_desc xs)" for xs
  proof -
    have "sorted (map (\<lambda>p. - snd p) (sort_key (\<lambda>p. - snd p) xs))"
      by (rule sorted_sort_key)
    then have "sorted_wrt (\<lambda>a b. - snd a \<le> - snd b) (sort_key (\<lambda>p. - snd p) xs)"
      by (simp add: sorted_map sorted_wrt_map)
    then show ?thesis
      by (simp add: desc_by_value_def insertion_sort_desc_def)
  qed
  then show ?thesis
    by (simp add: desc_sorter_def insertion_sort_desc_def)
qed

lemma example_lib_sorter: "desc_sorter (sort_values example_lib)"
  by (simp add: example_lib_def insertion_sort_desc_sorter)

lemma top_rows_take:
  "0 \<le> top_n \<Longrightarrow> top_rows L df value_col label_col top_n
     = take (nat top_n) (ordered_rows L df value_col label_col)"
  by (simp add: top_rows_def head_df_def)

lemma aggregate_empty:
  assumes "desc_sorter (sort_values L)"
  shows "aggregate_top_share L [] value_col label_col n other_label = ([], [])"
proof -
  have "length (ordered_rows L ([]::'a list) value_col label_col) = 0"
    using ordered_rows_length [OF assms, of "[]::'a list"] by simp
  then have "ordered_rows L ([]::'a list) value_col label_col = []"
    by simp
  then show ?thesis
    by (simp add: aggregate_top_share_def remainder_def top_rows_def head_df_def)
qed

text \<open>
  C4. For a row limit \<open>top_n\<close> that is a count (not negative), the label and size
  sequences of the aggregator have the same length, which is \<open>min top_n row_count\<close> when
  the remainder is not positive and one more when it is positive. When \<open>top_n\<close> is at least
  the row count the remainder is not positive and the output is the sorted table itself,
  with no "Other" slice. An empty table yields two empty sequences.
\<close>

theorem aggregate_output_length:
  assumes "desc_sorter (sort_values L)" and "0 \<le> top_n"
  shows "length (fst (aggregate_top_share L df value_col label_col top_n other_label))
           = length (snd (aggregate_top_share L df value_col label_col top_n other_label))
       \<and> length (snd (aggregate_top_share L df value_col label_col top_n other_label))
           = min (nat top_n) (length df)
               + (if 0 < remainder L df value_col label_col top_n then 1 else 0)
       \<and> (int (length df) \<le> top_n \<longrightarrow>
            \<not> 0 < remainder L df value_col label_col top_n
            \<and> aggregate_top_share L df value_col label_col top_n other_label
                = (map fst (ordered_rows L df value_col label_col),
                   map snd (ordered_rows L df value_col label_col)))
       \<and> (\<forall>n. aggregate_top_share L ([]::'a list) value_col label_col n other_label = ([], []))"
proof -
  let ?o = "ordered_rows L df value_col label_col"
  have top: "top_rows L df value_col label_col top_n = take (nat top_n) ?o"
    using assms(2) by (rule top_rows_take)
  have len: "length ?o = length df"
    using assms(1) by (rule ordered_rows_length)
  have c1: "length (fst (aggregate_top_share L df value_col label_col top_n other_label))
      = length (snd (aggregate_top_share L df value_col label_col top_n other_label))"
    by (simp add: aggregate_top_share_def Let_def)
  have c2: "length (snd (aggregate_top_share L df value_col label_col top_n other_label))
      = min (nat top_n) (length df)
          + (if 0 < remainder L df value_col label_col top_n then 1 else 0)"
    using top len by (simp add: aggregate_top_share_def Let_def min.commute)
  have c3: "\<not> 0 < remainder L df value_col label_col top_n
      \<and> aggregate_top_share L df value_col label_col top_n other_label
          = (map fst ?o, map snd ?o)" if "int (length df) \<le> top_n"
  proof -
    have "take (nat top_n) ?o = ?o"
      using that len by simp
    then have all: "top_rows L df value_col label_col top_n = ?o"
      using top by simp
    then have "remainder L df value_col label_col top_n = 0"
      by (simp add: remainder_def)
    then show ?thesis
      using all by (simp add: aggregate_top_share_def Let_def)
  qed
  have c4: "\<forall>n. aggregate_top_share L ([]::'a list) value_col label_col n other_label = ([], [])"
    using aggregate_empty [OF assms(1)] by blast
  show ?thesis
    using c1 c2 c3 c4 by blast
qed

theorem aggregate_output_length_witness:
  "desc_sorter (sort_values example_lib) \<and> (0::int) \<le> 2
   \<and> length (snd (aggregate_top_share example_lib
         [(''A'', 100), (''B'', 50), (''C'', 10::rat)] snd fst 2 ''Other stories'')) = 3
   \<and> remainder example_lib [(''A'', 100), (''B'', 50), (''C'', 10::rat)] snd fst 2 = 10"
proof -
  have r: "remainder example_lib [(''A'', 100), (''B'', 50), (''C'', 10::rat)] snd fst 2 = 10"
    by (simp add: remainder_def top_rows_def ordered_rows_def head_df_def example_lib_def
        insertion_sort_desc_def)
  have "length (snd (aggregate_top_share example_lib
         [(''A'', 100), (''B'', 50), (''C'', 10::rat)] snd fst 2 ''Other stories''))
      = min (nat 2) (length [(''A'', 100), (''B'', 50), (''C'', 10::rat)])
          + (if 0 < remainder example_lib [(''A'', 100), (''B'', 50), (''C'', 10::rat)] snd fst 2
             then 1 else 0)"
    using aggregate_output_length [OF example_lib_sorter,
        of 2 "[(''A'', 100), (''B'', 50), (''C'', 10::rat)]" snd fst "''Other stories''"]
    by simp
  then show ?thesis
    using r example_lib_sorter by simp
qed

text \<open>
  C8. The sizes of the rows taken from the sorted table are in descending order. When the
  remainder is positive the synthetic slice is the last element of both sequences, after
  those rows, whatever its size; otherwise the whole size sequence is descending.
\<close>

theorem aggregate_sizes_descending:
  assumes "desc_sorter (sort_values L)"
  shows "(0 < remainder L df value_col label_col top_n \<longrightarrow>
            snd (aggregate_top_share L df value_col label_col top_n other_label)
              = map snd (top_rows L df value_col label_col top_n)
                  @ [remainder L df value_col label_col top_n]
          \<and> fst (aggregate_top_share L df value_col label_col top_n other_label)
              = map fst (top_rows L df value_col label_col top_n) @ [other_label]
          \<and> sorted_wrt (\<lambda>a b. b \<le> a) (map snd (top_rows L df value_col label_col top_n)))
       \<and> (\<not> 0 < remainder L df value_col label_col top_n \<longrightarrow>
            sorted_wrt (\<lambda>a b. b \<le> a)
              (snd (aggregate_top_share L df value_col label_col top_n other_label)))"
proof -
  let ?o = "ordered_rows L df value_col label_col"
  have "desc_by_value ?o"
    using assms by (simp add: desc_sorter_def ordered_rows_def)
  then have "sorted_wrt (\<lambda>a b. snd b \<le> snd a) ?o"
    by (simp add: desc_by_value_def)
  moreover obtain k where "top_rows L df value_col label_col top_n = take k ?o"
    using remainder_is_rest by blast
  ultimately have "sorted_wrt (\<lambda>a b. snd b \<le> snd a) (top_rows L df value_col label_col top_n)"
    by (simp add: sorted_wrt_take)
  then have desc: "sorted_wrt (\<lambda>a b. b \<le> a) (map snd (top_rows L df value_col label_col top_n))"
    by (simp add: sorted_wrt_map)
  show ?thesis
    using desc by (simp add: aggregate_top_share_def Let_def)
qed

theorem aggregate_sizes_descending_witness:
  "desc_sorter (sort_values example_lib)
   \<and> 0 < remainder example_lib [(''A'', 3), (''B'', 2), (''C'', 2), (''D'', 2::rat)] snd fst 1
   \<and> aggregate_top_share example_lib [(''A'', 3), (''B'', 2), (''C'', 2), (''D'', 2::rat)]
         snd fst 1 ''Other'' = ([''A'', ''Other''], [3, 6])"
proof -
  have r: "remainder example_lib [(''A'', 3), (''B'', 2), (''C'', 2), (''D'', 2::rat)] snd fst 1 = 6"
    by (simp add: remainder_def top_rows_def ordered_rows_def head_df_def example_lib_def
        insertion_sort_desc_def)
  have t: "top_rows example_lib [(''A'', 3), (''B'', 2), (''C'', 2), (''D'', 2::rat)] snd fst 1
      = [(''A'', 3)]"
    by (simp add: top_rows_def ordered_rows_def head_df_def example_lib_def
        insertion_sort_desc_def)
  have "snd (aggregate_top_share example_lib [(''A'', 3), (''B'', 2), (''C'', 2), (''D'', 2::rat)]
         snd fst 1 ''Other'') = [3, 6]
      \<and> fst (aggregate_top_share example_lib [(''A'', 3), (''B'', 2), (''C'', 2), (''D'', 2::rat)]
         snd fst 1 ''Other'') = [''A'', ''Other'']"
    using aggregate_sizes_descending [OF example_lib_sorter,
        of "[(''A'', 3), (''B'', 2), (''C'', 2), (''D'', 2::rat)]" snd fst 1 "''Other''"] r t
    by simp
  then show ?thesis
    using r example_lib_sorter by (simp add: prod_eq_iff)
qed

section \<open>The sum of the sizes, on an int64 column\<close>
















section \<open>Properties of the engagement classifier\<close>

lemma engagement_bins_cases:
  "engagement_bins r =
     (if r < 0 then None
      else if r \<le> 1 / 2 then Some ''Quiet (<0.5)''
      else if r \<le> 1 then Some ''Balanced (0.5-1.0)''
      else Some ''Buzzing (>1.0)'')"
  by (auto simp: engagement_bins_def pd_cut_def engagement_edges_def engagement_labels_def Let_def)

text \<open>
  C1 (as amended). A row with positive Votes and non-negative Comments has the ratio
  Comments / Votes, which is not negative and falls in exactly one of the three buckets
  (the three labels are distinct): a ratio below 0.5 is "Quiet (<0.5)", a ratio above 0.5 and
  at most 1.0 is "Balanced (0.5-1.0)", a ratio above 1.0 is "Buzzing (>1.0)". The ratio 1.0
  is in the middle bucket, not the last. Nothing is said here of the ratio 0.5.
\<close>

theorem engagement_bins_intervals:
  assumes "0 < Votes row" and "0 \<le> Comments row"
  shows "engagement_ratio row = Some (Comments row / Votes row)
       \<and> 0 \<le> Comments row / Votes row
       \<and> distinct engagement_labels
       \<and> (\<exists>l\<in>set engagement_labels. engagement_bins (Comments row / Votes row) = Some l)
       \<and> (Comments row / Votes row < 1 / 2 \<longrightarrow>
            engagement_bins (Comments row / Votes row) = Some ''Quiet (<0.5)'')
       \<and> (1 / 2 < Comments row / Votes row \<and> Comments row / Votes row \<le> 1 \<longrightarrow>
            engagement_bins (Comments row / Votes row) = Some ''Balanced (0.5-1.0)'')
       \<and> (1 < Comments row / Votes row \<longrightarrow>
            engagement_bins (Comments row / Votes row) = Some ''Buzzing (>1.0)'')"
proof -
  define q where "q = Comments row / Votes row"
  have r0: "0 \<le> q"
    using assms by (simp add: q_def)
  have ratio: "engagement_ratio row = Some q"
    using assms(1) by (simp add: engagement_ratio_def q_def)
  have bins: "(\<exists>l\<in>set engagement_labels. engagement_bins q = Some l)
      \<and> (q < 1 / 2 \<longrightarrow> engagement_bins q = Some ''Quiet (<0.5)'')
      \<and> (1 / 2 < q \<and> q \<le> 1 \<longrightarrow> engagement_bins q = Some ''Balanced (0.5-1.0)'')
      \<and> (1 < q \<longrightarrow> engagement_bins q = Some ''Buzzing (>1.0)'')"
    using r0 by (auto simp: engagement_bins_cases engagement_labels_def)
  have d: "distinct engagement_labels"
    by (simp add: engagement_labels_def)
  show ?thesis
    using r0 ratio d bins unfolding q_def by blast
qed

lemma engagement_map_fst: "map fst (engagement df) = filter (\<lambda>r. Votes r \<noteq> 0) df"
  by (induction df) (auto simp: engagement_def List.map_filter_simps engagement_ratio_def)

lemma engagement_members:
  "p \<in> set (engagement df) \<longleftrightarrow>
     fst p \<in> set df \<and> Votes (fst p) \<noteq> 0 \<and> snd p = Comments (fst p) / Votes (fst p)"
  by (cases p) (auto simp: engagement_def List.map_filter_def engagement_ratio_def)

lemma engagement_filter: "engagement (filter (\<lambda>r. Votes r \<noteq> 0) df) = engagement df"
  by (induction df) (auto simp: engagement_def List.map_filter_simps engagement_ratio_def)

lemma engagement_chart_filter:
  "engagement_chart (filter (\<lambda>r. Votes r \<noteq> 0) df) = engagement_chart df"
  by (simp add: engagement_chart_def engagement_filter)

text \<open>
  C7. On a table whose Votes are not negative, the rows that get a ratio are exactly the
  rows with Votes > 0, in table order, each with the ratio Comments / Votes. A row with
  Votes = 0 has no ratio (not the ratio zero) and is not among them, and the chart is the
  chart of the table without such rows. When every row has Votes = 0 the classifier gives
  the "No engagement data" placeholder; when some row has Votes > 0 it gives a pie of the
  three buckets.
\<close>

theorem engagement_excludes_zero_votes:
  assumes "\<forall>r\<in>set df. 0 \<le> Votes r"
  shows "map fst (engagement df) = filter (\<lambda>r. 0 < Votes r) df
       \<and> (\<forall>p\<in>set (engagement df). 0 < Votes (fst p) \<and> snd p = Comments (fst p) / Votes (fst p))
       \<and> (\<forall>r\<in>set df. Votes r = 0 \<longrightarrow>
             engagement_ratio r = None \<and> r \<notin> fst ` set (engagement df))
       \<and> engagement_chart df = engagement_chart (filter (\<lambda>r. 0 < Votes r) df)
       \<and> ((\<forall>r\<in>set df. Votes r = 0) \<longrightarrow>
             engagement_chart df = Placeholder ''No engagement data'')
       \<and> ((\<exists>r\<in>set df. 0 < Votes r) \<longrightarrow>
             (\<exists>sizes. engagement_chart df
                = Pie engagement_labels sizes ''Spectral'' ''Engagement Levels''))"
proof -
  have pos: "filter (\<lambda>r. Votes r \<noteq> 0) df = filter (\<lambda>r. 0 < Votes r) df"
    using assms by (intro filter_cong) auto
  have c1: "map fst (engagement df) = filter (\<lambda>r. 0 < Votes r) df"
    using engagement_map_fst [of df] pos by simp
  have c2: "\<forall>p\<in>set (engagement df). 0 < Votes (fst p) \<and> snd p = Comments (fst p) / Votes (fst p)"
  proof
    fix p assume "p \<in> set (engagement df)"
    then have "fst p \<in> set df" "Votes (fst p) \<noteq> 0" "snd p = Comments (fst p) / Votes (fst p)"
      by (simp_all add: engagement_members)
    then show "0 < Votes (fst p) \<and> snd p = Comments (fst p) / Votes (fst p)"
      using assms by force
  qed
  have c3: "\<forall>r\<in>set df. Votes r = 0 \<longrightarrow>
      engagement_ratio r = None \<and> r \<notin> fst ` set (engagement df)"
    by (auto simp: engagement_ratio_def engagement_members)
  have c4: "engagement_chart df = engagement_chart (filter (\<lambda>r. 0 < Votes r) df)"
    using engagement_chart_filter [of df] pos by simp
  have c5: "engagement_chart df = Placeholder ''No engagement data''" if "\<forall>r\<in>set df. Votes r = 0"
  proof -
    have "filter (\<lambda>r. Votes r \<noteq> 0) df = []"
      using that by (simp add: filter_empty_conv)
    then have "map fst (engagement df) = []"
      by (simp add: engagement_map_fst)
    then show ?thesis
      by (simp add: engagement_chart_def)
  qed
  have c6: "\<exists>sizes. engagement_chart df = Pie engagement_labels sizes ''Spectral'' ''Engagement Levels''"
    if "\<exists>r\<in>set df. 0 < Votes r"
  proof -
    have "filter (\<lambda>r. 0 < Votes r) df \<noteq> []"
      using that by (simp add: filter_empty_conv)
    then have "engagement df \<noteq> []"
      using c1 by auto
    then show ?thesis
      by (simp add: engagement_chart_def Let_def bucket_counts_def comp_def)
  qed
  show ?thesis
    using c1 c2 c3 c4 c5 c6 by blast
qed

theorem engagement_bins_intervals_witness:
  "0 < Votes \<lparr> Title = CStr ''A'', URL = CStr ''http://x.com'', Votes = 4, Comments = 3,
        TitleShort = None, Domain_col = None \<rparr>
   \<and> engagement_ratio \<lparr> Title = CStr ''A'', URL = CStr ''http://x.com'', Votes = 4, Comments = 3,
        TitleShort = None, Domain_col = None \<rparr> = Some (3 / 4)
   \<and> engagement_bins (3 / 4) = Some ''Balanced (0.5-1.0)''"
  using engagement_bins_intervals [of "\<lparr> Title = CStr ''A'', URL = CStr ''http://x.com'',
      Votes = 4, Comments = 3, TitleShort = None, Domain_col = None \<rparr>"]
  by simp

theorem engagement_bins_one_counterexample:
  "engagement_ratio \<lparr> Title = CStr ''A'', URL = CStr ''http://x.com'', Votes = 3, Comments = 3,
        TitleShort = None, Domain_col = None \<rparr> = Some 1
   \<and> engagement_bins 1 = Some ''Balanced (0.5-1.0)''
   \<and> engagement_bins 1 \<noteq> Some ''Buzzing (>1.0)''"
  by (simp add: engagement_ratio_def engagement_bins_cases)

text \<open>The ratio 0.5 itself is put in the bucket labelled "Quiet (<0.5)".\<close>

lemma engagement_bins_half: "engagement_bins (1 / 2) = Some ''Quiet (<0.5)''"
  by (simp add: engagement_bins_cases)

theorem engagement_excludes_zero_votes_witness:
  "list_all (\<lambda>r. 0 \<le> Votes r)
     [\<lparr> Title = CStr ''A'', URL = CNaN, Votes = 0, Comments = 5, TitleShort = None, Domain_col = None \<rparr>,
      \<lparr> Title = CStr ''B'', URL = CNaN, Votes = 4, Comments = 2, TitleShort = None, Domain_col = None \<rparr>]
   \<and> map fst (engagement
     [\<lparr> Title = CStr ''A'', URL = CNaN, Votes = 0, Comments = 5, TitleShort = None, Domain_col = None \<rparr>,
      \<lparr> Title = CStr ''B'', URL = CNaN, Votes = 4, Comments = 2, TitleShort = None, Domain_col = None \<rparr>])
     = [\<lparr> Title = CStr ''B'', URL = CNaN, Votes = 4, Comments = 2, TitleShort = None, Domain_col = None \<rparr>]
   \<and> engagement_chart
     [\<lparr> Title = CStr ''A'', URL = CNaN, Votes = 0, Comments = 5, TitleShort = None, Domain_col = None \<rparr>]
     = Placeholder ''No engagement data''"
proof -
  let ?a = "\<lparr> Title = CStr ''A'', URL = CNaN, Votes = 0, Comments = 5,
              TitleShort = None, Domain_col = None \<rparr>"
  let ?b = "\<lparr> Title = CStr ''B'', URL = CNaN, Votes = 4, Comments = 2,
              TitleShort = None, Domain_col = None \<rparr>"
  have h2: "\<forall>r\<in>set [?a, ?b]. 0 \<le> Votes r" by simp
  have h1: "\<forall>r\<in>set [?a]. 0 \<le> Votes r" by simp
  have "map fst (engagement [?a, ?b]) = filter (\<lambda>r. 0 < Votes r) [?a, ?b]"
    using engagement_excludes_zero_votes [OF h2] by (rule conjunct1)
  then have c1: "map fst (engagement [?a, ?b]) = [?b]" by simp
  have "(\<forall>r\<in>set [?a]. Votes r = 0) \<longrightarrow> engagement_chart [?a] = Placeholder ''No engagement data''"
    using engagement_excludes_zero_votes [OF h1] by blast
  then have c2: "engagement_chart [?a] = Placeholder ''No engagement data''" by simp
  show ?thesis using c1 c2 by simp
qed

section \<open>Properties of the loader, the entry point and the store\<close>

lemma plot_visualizations_store:
  "take (length s) (snd (plot_visualizations L a s)) = s"
  by (simp add: plot_visualizations_def frame_copy_def set_TitleShort_def set_Domain_def Let_def
      split: sum.splits prod.splits)

text \<open>
  C9. The renderer pipeline leaves the caller's table as it was: every frame that was in
  the store before \<^verbatim>\<open>plot_visualizations\<close> ran, the caller's frame among them, is
  unchanged after it, whether it returns or raises. The derived columns are assigned on the
  copy that \<^verbatim>\<open>df.copy()\<close> allocated.
\<close>

theorem plot_visualizations_frame:
  assumes "a < length s"
  shows "snd (plot_visualizations L a s) ! a = s ! a
       \<and> take (length s) (snd (plot_visualizations L a s)) = s"
proof -
  have t: "take (length s) (snd (plot_visualizations L a s)) = s"
    by (rule plot_visualizations_store)
  have "take (length s) (snd (plot_visualizations L a s)) ! a
      = snd (plot_visualizations L a s) ! a"
    using assms by simp
  then show ?thesis using t by simp
qed

lemma apply_series_error:
  "apply_series f xs = Inl e \<Longrightarrow> \<exists>x\<in>set xs. f x = Inl e"
  by (induction xs) (auto split: sum.splits)

lemma apply_series_ok:
  "(\<forall>x\<in>set xs. \<exists>y. f x = Inr y) \<Longrightarrow> \<exists>ys. apply_series f xs = Inr ys"
  by (induction xs) (auto split: sum.splits)

lemma apply_series_values:
  "apply_series f xs = Inr ys \<Longrightarrow> map f xs = map Inr ys"
  by (induction xs arbitrary: ys) (auto split: sum.splits)

lemma domain_of_error:
  "domain_of L u = Inl e \<Longrightarrow>
     e = ValueError ''Invalid IPv6 URL'' \<or> e = ValueError ''Invalid bracketed host''"
  by (auto simp: domain_of_def urlparse_netloc_def Let_def split: sum.splits if_splits)

lemma plot_pie_error: "plot_pie labels sizes palette title = Inl e \<Longrightarrow> pie_error e"
  by (auto simp: plot_pie_def pie_error_def split: if_splits)

lemma plot_pie_drawn:
  "plot_pie labels sizes palette title = Inr c \<Longrightarrow> c = Pie labels sizes palette title"
  by (auto simp: plot_pie_def split: if_splits)

lemma draw_chart_error: "draw_chart c = Inl e \<Longrightarrow> pie_error e"
  by (cases c) (auto dest: plot_pie_error)

lemma titled_urls:
  "map (URL \<circ> (\<lambda>(r, v). r\<lparr>TitleShort := Some v\<rparr>))
      (zip df (short_titles L (map Title df) 40)) = map URL df"
  by (rule nth_equalityI) (auto simp: short_titles_def)

lemma plot_visualizations_error:
  assumes "fst (plot_visualizations L a s) = Inl e"
  shows "pie_error e \<or> (\<exists>r\<in>set (s ! a). domain_of L (URL r) = Inl e)"
proof (rule ccontr)
  assume no: "\<not> (pie_error e \<or> (\<exists>r\<in>set (s ! a). domain_of L (URL r) = Inl e))"
  have pie: "plot_pie l z p t \<noteq> Inl e" for l z p t
    using no plot_pie_error by blast
  have draw: "draw_chart c \<noteq> Inl e" for c
    using no draw_chart_error by blast
  have url: "apply_series (domain_of L) (map URL (s ! a)) \<noteq> Inl e"
  proof
    assume "apply_series (domain_of L) (map URL (s ! a)) = Inl e"
    then have "\<exists>u\<in>set (map URL (s ! a)). domain_of L u = Inl e"
      by (rule apply_series_error)
    then show False using no by auto
  qed
  show False
    using assms pie draw url
    by (auto simp: plot_visualizations_def frame_copy_def set_TitleShort_def Let_def titled_urls
        split: sum.splits prod.splits)
qed

lemma pie_error_messages:
  "pie_error e \<Longrightarrow> e \<noteq> FileNotFoundError
     \<and> e \<noteq> ValueError ''Dataset contains no valid numeric rows.''"
  by (auto simp: pie_error_def)

lemma dropna_coerce_row:
  "dropna_row (coerce_row L r) = (if numeric_row L r then Some (story_of_raw L r) else None)"
  by (cases "to_numeric L (raw_Votes r)"; cases "to_numeric L (raw_Comments r)")
    (simp_all add: coerce_row_def numeric_row_def story_of_raw_def)

lemma load_hackernews_filter:
  "load_hackernews L raw = map (story_of_raw L) (filter (numeric_row L) raw)"
  by (induction raw)
    (simp_all add: load_hackernews_def List.map_filter_simps dropna_coerce_row)

text \<open>
  C5. The program ends with the "dataset not found" error exactly when the file does not
  exist, and with the "no valid numeric rows" error exactly when the file exists and no row
  has numeric Votes and Comments. The loader keeps exactly the rows whose two cells parse,
  in file order; when at least one such row exists the program goes on to the dashboard
  with the loaded table, without an error for the rows it dropped.
\<close>

theorem main_failure_kinds:
  "(main L csv = Inl FileNotFoundError \<longleftrightarrow> csv = None)
   \<and> (main L csv = Inl (ValueError ''Dataset contains no valid numeric rows.'') \<longleftrightarrow>
        (\<exists>raw. csv = Some raw \<and> \<not> (\<exists>r\<in>set raw. numeric_row L r)))
   \<and> (\<forall>raw. load_hackernews L raw = map (story_of_raw L) (filter (numeric_row L) raw))
   \<and> (\<forall>raw. csv = Some raw \<and> (\<exists>r\<in>set raw. numeric_row L r) \<longrightarrow>
        main L csv = fst (plot_visualizations L 0 [load_hackernews L raw]))"
proof -
  have plot: "fst (plot_visualizations L a s) \<noteq> Inl FileNotFoundError
      \<and> fst (plot_visualizations L a s) \<noteq> Inl (ValueError ''Dataset contains no valid numeric rows.'')"
    for a s
    using plot_visualizations_error [of L a s] domain_of_error [of L] pie_error_messages
    by fastforce
  have empty: "load_hackernews L raw = [] \<longleftrightarrow> \<not> (\<exists>r\<in>set raw. numeric_row L r)" for raw
    by (simp add: load_hackernews_filter filter_empty_conv)
  have c1: "main L csv = Inl FileNotFoundError \<longleftrightarrow> csv = None"
    using plot by (cases csv) (simp_all add: main_def Let_def)
  have c2: "main L csv = Inl (ValueError ''Dataset contains no valid numeric rows.'') \<longleftrightarrow>
      (\<exists>raw. csv = Some raw \<and> \<not> (\<exists>r\<in>set raw. numeric_row L r))"
  proof (cases csv)
    case None
    then show ?thesis by (simp add: main_def)
  next
    case (Some raw)
    then show ?thesis
      using plot [of 0 "[load_hackernews L raw]"] empty [of raw]
      by (simp add: main_def Let_def)
  qed
  have c4: "main L csv = fst (plot_visualizations L 0 [load_hackernews L raw])"
    if "csv = Some raw \<and> (\<exists>r\<in>set raw. numeric_row L r)" for raw
    using that empty [of raw] by (simp add: main_def Let_def)
  show ?thesis
    using c1 c2 c4 load_hackernews_filter by blast
qed


lemma digits_to_numeric_examples:
  "digits_to_numeric ''100'' = Some 100" "digits_to_numeric ''50'' = Some 50"
  "digits_to_numeric ''abc'' = None" "digits_to_numeric ''5'' = Some 5"
  by (simp_all add: digits_to_numeric_def)

theorem main_failure_kinds_witness:
  "main example_lib None = Inl FileNotFoundError
   \<and> main example_lib (Some [\<lparr> raw_Title = CStr ''B'', raw_URL = CNaN,
          raw_Votes = ''abc'', raw_Comments = ''5'' \<rparr>])
       = Inl (ValueError ''Dataset contains no valid numeric rows.'')
   \<and> load_hackernews example_lib
        [\<lparr> raw_Title = CStr ''A'', raw_URL = CStr ''http://x.com'',
           raw_Votes = ''100'', raw_Comments = ''50'' \<rparr>,
         \<lparr> raw_Title = CStr ''B'', raw_URL = CNaN, raw_Votes = ''abc'', raw_Comments = ''5'' \<rparr>]
       = [\<lparr> Title = CStr ''A'', URL = CStr ''http://x.com'', Votes = 100, Comments = 50,
            TitleShort = None, Domain_col = None \<rparr>]"
proof -
  let ?a = "\<lparr> raw_Title = CStr ''A'', raw_URL = CStr ''http://x.com'',
              raw_Votes = ''100'', raw_Comments = ''50'' \<rparr>"
  let ?b = "\<lparr> raw_Title = CStr ''B'', raw_URL = CNaN, raw_Votes = ''abc'', raw_Comments = ''5'' \<rparr>"
  have na: "numeric_row example_lib ?a" and nb: "\<not> numeric_row example_lib ?b"
    by (simp_all add: numeric_row_def example_lib_def digits_to_numeric_examples)
  have c1: "main example_lib None = Inl FileNotFoundError"
    using main_failure_kinds [of example_lib None] by simp
  have c2: "main example_lib (Some [?b]) = Inl (ValueError ''Dataset contains no valid numeric rows.'')"
    using main_failure_kinds [of example_lib "Some [?b]"] nb by simp
  have "load_hackernews example_lib [?a, ?b]
      = map (story_of_raw example_lib) (filter (numeric_row example_lib) [?a, ?b])"
    using main_failure_kinds [of example_lib None] by blast
  then have c3: "load_hackernews example_lib [?a, ?b]
      = [\<lparr> Title = CStr ''A'', URL = CStr ''http://x.com'', Votes = 100, Comments = 50,
            TitleShort = None, Domain_col = None \<rparr>]"
    using na nb by (simp add: story_of_raw_def example_lib_def digits_to_numeric_examples)
  show ?thesis using c1 c2 c3 by simp
qed

theorem plot_visualizations_frame_witness:
  "(0::nat) < length [[\<lparr> Title = CStr ''A'', URL = CStr ''http://x.com'', Votes = 100,
        Comments = 50, TitleShort = None, Domain_col = None \<rparr>]]
   \<and> snd (plot_visualizations example_lib 0
        [[\<lparr> Title = CStr ''A'', URL = CStr ''http://x.com'', Votes = 100, Comments = 50,
            TitleShort = None, Domain_col = None \<rparr>]]) ! 0
       = [\<lparr> Title = CStr ''A'', URL = CStr ''http://x.com'', Votes = 100, Comments = 50,
            TitleShort = None, Domain_col = None \<rparr>]"
  using plot_visualizations_frame [of 0 "[[\<lparr> Title = CStr ''A'', URL = CStr ''http://x.com'',
      Votes = 100, Comments = 50, TitleShort = None, Domain_col = None \<rparr>]]" example_lib]
  by simp

section \<open>Properties of the domain extractor\<close>

lemma strip_scheme_subset: "set (strip_scheme url) \<subseteq> set url"
  by (auto simp: strip_scheme_def Let_def dest: in_set_dropD)

lemma urlparse_netloc_no_slash:
  assumes "CHR ''/'' \<notin> set url"
  shows "urlparse_netloc L url = Inr []"
proof -
  let ?u = "strip_scheme (filter (\<lambda>c. \<not> unsafe_url_byte c) (dropWhile c0_control_or_space url))"
  have "set (dropWhile c0_control_or_space url) \<subseteq> set url"
    by (auto dest: set_dropWhileD)
  then have "set (filter (\<lambda>c. \<not> unsafe_url_byte c) (dropWhile c0_control_or_space url)) \<subseteq> set url"
    by auto
  then have "set ?u \<subseteq> set url"
    using strip_scheme_subset by blast
  then have no: "CHR ''/'' \<notin> set ?u"
    using assms by blast
  have "take 2 ?u \<noteq> ''//''"
  proof
    assume "take 2 ?u = ''//''"
    then have "CHR ''/'' \<in> set (take 2 ?u)" by simp
    then show False using no by (auto dest: in_set_takeD)
  qed
  then show ?thesis
    by (simp add: urlparse_netloc_def Let_def)
qed

lemma of_char_digit_char: "d < 10 \<Longrightarrow> (of_char (digit_char d) :: nat) = 48 + d"
  by (simp add: digit_char_def)

lemma digit_char_not_slash: "d < 10 \<Longrightarrow> digit_char d \<noteq> CHR ''/''"
proof
  assume "d < 10" and "digit_char d = CHR ''/''"
  then have "(of_char (CHR ''/'') :: nat) = 48 + d"
    using of_char_digit_char [of d] by simp
  then show False by simp
qed

lemma str_nat_no_slash: "CHR ''/'' \<notin> set (str_nat n)"
proof (induction n rule: str_nat.induct)
  case (1 n)
  show ?case
  proof (cases "n < 10")
    case True
    then show ?thesis
      using digit_char_not_slash [of n] by (subst str_nat.simps) simp
  next
    case False
    have "digit_char (n mod 10) \<noteq> CHR ''/''"
      by (rule digit_char_not_slash) simp
    then show ?thesis
      using False 1 by (subst str_nat.simps) simp
  qed
qed

lemma float_text_no_slash: "CHR ''/'' \<notin> set (text_of t)"
proof
  assume "CHR ''/'' \<in> set (text_of t)"
  moreover have "list_all float_char (text_of t)"
    using text_of [of t] by simp
  ultimately have "float_char CHR ''/''"
    by (simp add: list_all_iff)
  then show False by (simp add: float_char_def)
qed

lemma str_cell_no_slash:
  assumes "not_string url"
  shows "CHR ''/'' \<notin> set (str_cell url)"
proof (cases url)
  case (CStr x)
  then show ?thesis using assms by (simp add: not_string_def)
next
  case CNaN
  then show ?thesis by simp
next
  case (CInt i)
  then show ?thesis by (simp add: str_int_def str_nat_no_slash)
next
  case (CBool b)
  then show ?thesis by simp
next
  case (CFloat t)
  then show ?thesis by (simp add: float_text_no_slash)
qed

lemma ascii_alpha_not_space: "ascii_alpha c \<Longrightarrow> \<not> c0_control_or_space c"
  by (auto simp: ascii_alpha_def c0_control_or_space_def)

lemma scheme_char_safe: "scheme_char c \<Longrightarrow> \<not> unsafe_url_byte c \<and> c \<noteq> CHR '':''"
  by (auto simp: scheme_char_def ascii_alpha_def unsafe_url_byte_def)

lemma strip_scheme_valid:
  assumes "valid_scheme scheme"
  shows "strip_scheme (scheme @ CHR '':'' # rest) = rest"
proof -
  have nocolon: "\<forall>c\<in>set scheme. c \<noteq> CHR '':''"
    using assms scheme_char_safe by (auto simp: valid_scheme_def list_all_iff)
  then have tw: "takeWhile (\<lambda>c. c \<noteq> CHR '':'') (scheme @ CHR '':'' # rest) = scheme"
    by (simp add: takeWhile_append2)
  have ne: "scheme \<noteq> []" and al: "ascii_alpha (hd scheme)" and sc: "list_all scheme_char scheme"
    using assms by (simp_all add: valid_scheme_def)
  show ?thesis
    unfolding strip_scheme_def tw Let_def
    using ne al sc by simp
qed

lemma takeWhile_host:
  assumes "list_all (\<lambda>c. \<not> netloc_delim c) host" and "rest = [] \<or> netloc_delim (hd rest)"
  shows "takeWhile (\<lambda>c. \<not> netloc_delim c) (host @ rest) = host"
proof (cases rest)
  case Nil
  then show ?thesis using assms(1) by (simp add: list_all_iff)
next
  case (Cons d r)
  then have "netloc_delim d" using assms(2) by simp
  then show ?thesis using assms(1) Cons by (simp add: list_all_iff takeWhile_append2)
qed

lemma urlparse_netloc_host:
  assumes "valid_scheme scheme" and "list_all plain_host_char host"
    and "rest = [] \<or> netloc_delim (hd rest)"
  shows "urlparse_netloc L (scheme @ ''://'' @ host @ rest) = Inr host"
proof -
  let ?rest = "filter (\<lambda>c. \<not> unsafe_url_byte c) rest"
  have ne: "scheme \<noteq> []" and al: "ascii_alpha (hd scheme)" and sc: "list_all scheme_char scheme"
    using assms(1) by (simp_all add: valid_scheme_def)
  have d: "dropWhile c0_control_or_space (scheme @ ''://'' @ host @ rest) = scheme @ ''://'' @ host @ rest"
    using ne al ascii_alpha_not_space by (cases scheme) auto
  have fs: "filter (\<lambda>c. \<not> unsafe_url_byte c) scheme = scheme"
    using sc scheme_char_safe by (auto simp: list_all_iff filter_id_conv)
  have fh: "filter (\<lambda>c. \<not> unsafe_url_byte c) host = host"
    using assms(2) by (auto simp: list_all_iff filter_id_conv plain_host_char_def)
  have f: "filter (\<lambda>c. \<not> unsafe_url_byte c) (scheme @ ''://'' @ host @ rest)
      = scheme @ CHR '':'' # (''//'' @ host @ ?rest)"
    using fs fh by (simp add: unsafe_url_byte_def)
  have r: "?rest = [] \<or> netloc_delim (hd ?rest)"
  proof (cases rest)
    case Nil
    then show ?thesis by simp
  next
    case (Cons c cs)
    then have "netloc_delim c" using assms(3) by simp
    then have "\<not> unsafe_url_byte c"
      by (auto simp: netloc_delim_def unsafe_url_byte_def)
    then show ?thesis using Cons \<open>netloc_delim c\<close> by simp
  qed
  have hd: "list_all (\<lambda>c. \<not> netloc_delim c) host"
    using assms(2) by (auto simp: list_all_iff plain_host_char_def)
  have tw: "takeWhile (\<lambda>c. \<not> netloc_delim c) (host @ ?rest) = host"
    using hd r by (rule takeWhile_host)
  have nb: "CHR ''['' \<notin> set host" "CHR '']'' \<notin> set host"
    using assms(2) by (auto simp: list_all_iff plain_host_char_def)
  show ?thesis
    unfolding urlparse_netloc_def d f strip_scheme_valid [OF assms(1)] Let_def
    using tw nb by simp
qed


lemma groupby_sum_member:
  assumes "k \<in> fst ` set kvs"
  shows "(k, column_sum (map snd (filter (\<lambda>p. fst p = k) kvs))) \<in> set (groupby_sum kvs)"
proof -
  have "k \<in> set (sort (remdups (map fst kvs)))"
    using assms by simp
  then show ?thesis
    unfolding groupby_sum_def by (simp add: image_iff)
qed

lemma filter_key_sum:
  "column_sum (map snd (filter (\<lambda>p. fst p = k) (map (\<lambda>r. (f r, g r)) df)))
     = column_sum (map g (filter (\<lambda>r. f r = k) df))"
  by (induction df) (simp_all add: column_sum_def)

lemma domain_table_member:
  assumes "r \<in> set df"
  shows "(domain_label L r,
          column_sum (map Votes (filter (\<lambda>x. domain_label L x = domain_label L r) df)))
           \<in> set (domain_table L df)"
proof -
  have "domain_label L r \<in> fst ` set (map (\<lambda>r. (domain_label L r, Votes r)) df)"
    using assms by (auto simp: image_iff)
  then show ?thesis
    unfolding domain_table_def
    using groupby_sum_member [of "domain_label L r" "map (\<lambda>r. (domain_label L r, Votes r)) df"]
    by (simp add: filter_key_sum)
qed

lemma domain_votes_labelled:
  assumes "apply_series (domain_of L) (map URL df) = Inr ds"
    and "length ts = length df"
  shows "domain_votes (map (\<lambda>(r, v). r\<lparr>Domain_col := Some v\<rparr>)
            (zip (map (\<lambda>(r, v). r\<lparr>TitleShort := Some v\<rparr>) (zip df ts)) ds))
         = domain_table L df"
proof -
  have vals: "map (domain_of L) (map URL df) = map Inr ds"
    using assms(1) by (rule apply_series_values)
  then have len: "length ds = length df"
    by (metis length_map)
  have lab: "domain_label L (df ! i) = ds ! i" if "i < length df" for i
  proof -
    have "map (domain_of L) (map URL df) ! i = map Inr ds ! i"
      using vals by simp
    then have "domain_of L (URL (df ! i)) = Inr (ds ! i)"
      using that len by simp
    then show ?thesis by (simp add: domain_label_def)
  qed
  have "map (\<lambda>r. (the (Domain_col r), Votes r))
          (map (\<lambda>(r, v). r\<lparr>Domain_col := Some v\<rparr>)
            (zip (map (\<lambda>(r, v). r\<lparr>TitleShort := Some v\<rparr>) (zip df ts)) ds))
      = map (\<lambda>r. (domain_label L r, Votes r)) df"
    by (rule nth_equalityI) (simp_all add: len assms(2) lab)
  then show ?thesis
    by (simp add: domain_votes_def domain_table_def)
qed

lemma plot_visualizations_domains:
  assumes "fst (plot_visualizations L a s) = Inr d"
  shows "ax_domains d =
     (case aggregate_top_share L (domain_table L (s ! a)) snd fst 6 ''Other domains'' of
        (labels, sizes) \<Rightarrow> Pie labels sizes ''mako'' ''Vote Share by Domain'')"
proof -
  let ?ts = "short_titles L (map Title (s ! a)) 40"
  let ?df = "map (\<lambda>(r, v). r\<lparr>TitleShort := Some v\<rparr>) (zip (s ! a) ?ts)"
  have lts: "length ?ts = length (s ! a)"
    by (simp add: short_titles_def)
  have tab: "domain_votes (map (\<lambda>(r, v). r\<lparr>Domain_col := Some v\<rparr>) (zip ?df ds))
      = domain_table L (s ! a)"
    if "apply_series (domain_of L) (map URL (s ! a)) = Inr ds" for ds
    using that lts by (rule domain_votes_labelled)
  show ?thesis
    using assms tab
    by (auto simp: plot_visualizations_def frame_copy_def set_TitleShort_def set_Domain_def Let_def
        titled_urls split: prod.splits sum.splits dest!: plot_pie_drawn)
qed

lemma not_string_unknown:
  assumes "not_string url"
  shows "urlparse_netloc L (str_cell url) = Inr [] \<and> domain_of L url = Inr ''Unknown''"
proof -
  have "urlparse_netloc L (str_cell url) = Inr []"
    using str_cell_no_slash [OF assms] by (rule urlparse_netloc_no_slash)
  then show ?thesis by (simp add: domain_of_def)
qed

lemma apply_series_unknown:
  "(\<forall>r\<in>set df. not_string (URL r)) \<Longrightarrow>
     apply_series (domain_of L) (map URL df) = Inr (map (\<lambda>r. ''Unknown'') df)"
  by (induction df) (simp_all add: not_string_unknown)

lemma str_cell_int:
  "str_cell (CInt i) =
     (if i < 0 then CHR ''-'' # str_cell (CInt (- i))
      else if i < 10 then [digit_char (nat i)]
      else str_cell (CInt (i div 10)) @ [digit_char (nat (i mod 10))])"
proof -
  have neg: "str_cell (CInt i) = CHR ''-'' # str_cell (CInt (- i))" if "i < 0"
    using that by (simp add: str_int_def)
  have small: "str_cell (CInt i) = [digit_char (nat i)]" if "0 \<le> i" "i < 10"
  proof -
    have "nat i < 10" using that by simp
    then have "str_nat (nat i) = [digit_char (nat i)]"
      by (subst str_nat.simps) simp
    then show ?thesis using that by (simp add: str_int_def)
  qed
  have big: "str_cell (CInt i) = str_cell (CInt (i div 10)) @ [digit_char (nat (i mod 10))]"
    if "10 \<le> i"
  proof -
    have "\<not> nat i < 10" using that by simp
    then have "str_nat (nat i) = str_nat (nat i div 10) @ [digit_char (nat i mod 10)]"
      by (subst str_nat.simps) simp
    moreover have "nat (i div 10) = nat i div 10" "nat (i mod 10) = nat i mod 10"
      using that by (simp_all add: nat_div_distrib nat_mod_distrib)
    ultimately show ?thesis
      using that by (simp add: str_int_def)
  qed
  show ?thesis
    using neg small big by (cases "i < 0"; cases "i < 10") simp_all
qed

lemma digit_chars: "map digit_char [0..<10] = ''0123456789''"
  by code_simp

text \<open>
  C6 (as amended). When \<^verbatim>\<open>urlparse\<close> returns, the label of a row is the network
  location of its URL (host, optionally with port) when that is not empty, and "Unknown"
  when it is empty. When \<^verbatim>\<open>urlparse\<close> raises, the extractor raises the same exception:
  no label is produced. A URL made of a scheme, "://", a host without brackets and a rest
  that is empty or starts with a slash, question mark or hash has the host as its label.
  In particular "https://news.ycombinator.com/item?id=1" yields "news.ycombinator.com" and
  the empty URL yields "Unknown".
\<close>

theorem domain_of_netloc:
  "(\<forall>n. urlparse_netloc L (str_cell url) = Inr n \<longrightarrow>
        domain_of L url = Inr (if n = [] then ''Unknown'' else n))
   \<and> (\<forall>e. urlparse_netloc L (str_cell url) = Inl e \<longrightarrow> domain_of L url = Inl e)
   \<and> (\<forall>scheme host rest.
        valid_scheme scheme \<and> list_all plain_host_char host \<and> (rest = [] \<or> netloc_delim (hd rest))
        \<longrightarrow> domain_of L (CStr (scheme @ ''://'' @ host @ rest))
              = Inr (if host = [] then ''Unknown'' else host))
   \<and> domain_of L (CStr ''https://news.ycombinator.com/item?id=1'') = Inr ''news.ycombinator.com''
   \<and> domain_of L (CStr []) = Inr ''Unknown''"
proof -
  have c1: "\<forall>n. urlparse_netloc L (str_cell url) = Inr n \<longrightarrow>
      domain_of L url = Inr (if n = [] then ''Unknown'' else n)"
    by (simp add: domain_of_def)
  have c2: "\<forall>e. urlparse_netloc L (str_cell url) = Inl e \<longrightarrow> domain_of L url = Inl e"
    by (simp add: domain_of_def)
  have c3: "domain_of L (CStr (scheme @ ''://'' @ host @ rest))
      = Inr (if host = [] then ''Unknown'' else host)"
    if "valid_scheme scheme \<and> list_all plain_host_char host \<and> (rest = [] \<or> netloc_delim (hd rest))"
    for scheme host rest
  proof -
    have "urlparse_netloc L (scheme @ ''://'' @ host @ rest) = Inr host"
      using that by (intro urlparse_netloc_host) simp_all
    then show ?thesis by (simp add: domain_of_def)
  qed
  have "valid_scheme ''https'' \<and> list_all plain_host_char ''news.ycombinator.com''
      \<and> (''/item?id=1'' = [] \<or> netloc_delim (hd ''/item?id=1''))"
    by (simp add: valid_scheme_def plain_host_char_def netloc_delim_def unsafe_url_byte_def
        ascii_alpha_def scheme_char_def)
  then have "domain_of L (CStr (''https'' @ ''://'' @ ''news.ycombinator.com'' @ ''/item?id=1''))
      = Inr (if ''news.ycombinator.com'' = [] then ''Unknown'' else ''news.ycombinator.com'')"
    by (rule c3)
  then have c4: "domain_of L (CStr ''https://news.ycombinator.com/item?id=1'')
      = Inr ''news.ycombinator.com''"
    by simp
  have c5: "domain_of L (CStr []) = Inr ''Unknown''"
    using urlparse_netloc_no_slash [of "[]" L] by (simp add: domain_of_def)
  show ?thesis
    using c1 c2 c3 c4 c5 by blast
qed

theorem domain_of_netloc_witness:
  "valid_scheme ''http'' \<and> list_all plain_host_char ''x.com:8080'' \<and> netloc_delim (hd ''/a?b'')
   \<and> domain_of example_lib (CStr ''http://x.com:8080/a?b'') = Inr ''x.com:8080''"
proof -
  have h: "valid_scheme ''http'' \<and> list_all plain_host_char ''x.com:8080''
      \<and> (''/a?b'' = [] \<or> netloc_delim (hd ''/a?b''))"
    by (simp add: valid_scheme_def plain_host_char_def netloc_delim_def unsafe_url_byte_def
        ascii_alpha_def scheme_char_def)
  have "domain_of example_lib (CStr (''http'' @ ''://'' @ ''x.com:8080'' @ ''/a?b''))
      = Inr (if ''x.com:8080'' = [] then ''Unknown'' else ''x.com:8080'')"
    using domain_of_netloc [of example_lib "CStr []"] h by blast
  then show ?thesis using h by simp
qed

text \<open>
  The claim as first stated has "Unknown" for a URL that fails to parse; on "http://["
  the parse raises and so does the extractor.
\<close>

theorem domain_of_parse_failure_counterexample:
  "domain_of example_lib (CStr ''http://['') = Inl (ValueError ''Invalid IPv6 URL'')
   \<and> domain_of example_lib (CStr ''http://['') \<noteq> Inr ''Unknown''"
  by (simp add: domain_of_def urlparse_netloc_def strip_scheme_def Let_def
      c0_control_or_space_def unsafe_url_byte_def ascii_alpha_def scheme_char_def netloc_delim_def)

text \<open>
  C10. A URL cell that is missing or not a string is turned into its string form (NaN into
  "nan", a boolean into "True" or "False", an integer into its decimal digits with a minus
  sign when negative, a float into the text of the float) before it is parsed: the label of
  a cell is the label of its string form. That string form has no network location, so the
  row gets the label "Unknown", and on a table of such rows the domain extraction returns
  "Unknown" for every row. A missing URL never makes the pipeline fail: when
  \<^verbatim>\<open>plot_visualizations\<close> raises, either a pie could not be drawn or a row with a string
  URL made the parser raise. When the dashboard is produced its domain chart is the
  aggregation of the table of labels and summed votes, and that table has the row "Unknown"
  with the column sum of the votes of all rows labelled "Unknown", the rows with a missing
  URL among them.
\<close>

theorem missing_url_unknown:
  "(not_string url \<longrightarrow>
      urlparse_netloc L (str_cell url) = Inr [] \<and> domain_of L url = Inr ''Unknown'')
   \<and> domain_of L url = domain_of L (CStr (str_cell url))
   \<and> str_cell CNaN = ''nan'' \<and> str_cell (CBool True) = ''True''
   \<and> str_cell (CBool False) = ''False''
   \<and> map digit_char [0..<10] = ''0123456789''
   \<and> (\<forall>i. str_cell (CInt i) =
          (if i < 0 then CHR ''-'' # str_cell (CInt (- i))
           else if i < 10 then [digit_char (nat i)]
           else str_cell (CInt (i div 10)) @ [digit_char (nat (i mod 10))]))
   \<and> (\<forall>t. str_cell (CFloat t) = text_of t)
   \<and> ((\<forall>r\<in>set df. not_string (URL r)) \<longrightarrow>
        apply_series (domain_of L) (map URL df) = Inr (map (\<lambda>r. ''Unknown'') df))
   \<and> (\<forall>e. fst (plot_visualizations L a s) = Inl e \<longrightarrow>
        pie_error e
        \<or> (\<exists>r\<in>set (s ! a). \<not> not_string (URL r) \<and> domain_of L (URL r) = Inl e))
   \<and> (\<forall>d. fst (plot_visualizations L a s) = Inr d \<longrightarrow>
        ax_domains d =
          (case aggregate_top_share L (domain_table L (s ! a)) snd fst 6 ''Other domains'' of
             (labels, sizes) \<Rightarrow> Pie labels sizes ''mako'' ''Vote Share by Domain'')
        \<and> (\<forall>r\<in>set (s ! a). not_string (URL r) \<longrightarrow>
              domain_label L r = ''Unknown''
              \<and> (''Unknown'',
                  column_sum (map Votes (filter (\<lambda>x. domain_label L x = ''Unknown'') (s ! a))))
                   \<in> set (domain_table L (s ! a))))"
proof -
  have c1: "not_string url \<longrightarrow>
      urlparse_netloc L (str_cell url) = Inr [] \<and> domain_of L url = Inr ''Unknown''"
    using not_string_unknown by blast
  have c2: "domain_of L url = domain_of L (CStr (str_cell url))"
    by (simp add: domain_of_def)
  have c3: "str_cell CNaN = ''nan'' \<and> str_cell (CBool True) = ''True''
      \<and> str_cell (CBool False) = ''False''"
    by simp
  have c4: "\<forall>t. str_cell (CFloat t) = text_of t"
    by simp
  have c5: "(\<forall>r\<in>set df. not_string (URL r)) \<longrightarrow>
      apply_series (domain_of L) (map URL df) = Inr (map (\<lambda>r. ''Unknown'') df)"
    using apply_series_unknown by blast
  have c6: "pie_error e
      \<or> (\<exists>r\<in>set (s ! a). \<not> not_string (URL r) \<and> domain_of L (URL r) = Inl e)"
    if h: "fst (plot_visualizations L a s) = Inl e" for e
  proof (cases "pie_error e")
    case True
    then show ?thesis by blast
  next
    case False
    then obtain r where r: "r \<in> set (s ! a)" "domain_of L (URL r) = Inl e"
      using plot_visualizations_error [OF h] by blast
    then have "\<not> not_string (URL r)"
      using not_string_unknown [of "URL r" L] by auto
    then show ?thesis using r by blast
  qed
  have lab: "domain_label L r = ''Unknown''
      \<and> (''Unknown'', column_sum (map Votes (filter (\<lambda>x. domain_label L x = ''Unknown'') (s ! a))))
           \<in> set (domain_table L (s ! a))"
    if "r \<in> set (s ! a)" "not_string (URL r)" for r
  proof -
    have u: "domain_label L r = ''Unknown''"
      using not_string_unknown [OF that(2), of L] by (simp add: domain_label_def)
    show ?thesis
      using domain_table_member [OF that(1), of L] u by simp
  qed
  show ?thesis
    using c1 c2 c3 c4 c5 c6 lab plot_visualizations_domains digit_chars str_cell_int by blast
qed

theorem missing_url_unknown_witness:
  "not_string CNaN \<and> domain_of example_lib CNaN = Inr ''Unknown''
   \<and> apply_series (domain_of example_lib) [CNaN, CInt 5] = Inr [''Unknown'', ''Unknown'']
   \<and> (\<exists>d. fst (plot_visualizations example_lib 0
          [[\<lparr> Title = CStr ''D'', URL = CNaN, Votes = 7, Comments = 1,
               TitleShort = None, Domain_col = None \<rparr>,
            \<lparr> Title = CStr ''E'', URL = CInt 5, Votes = 5, Comments = 2,
               TitleShort = None, Domain_col = None \<rparr>]]) = Inr d)
   \<and> (''Unknown'', 12) \<in> set (domain_table example_lib
          [\<lparr> Title = CStr ''D'', URL = CNaN, Votes = 7, Comments = 1,
              TitleShort = None, Domain_col = None \<rparr>,
           \<lparr> Title = CStr ''E'', URL = CInt 5, Votes = 5, Comments = 2,
              TitleShort = None, Domain_col = None \<rparr>])"
proof -
  let ?d = "\<lparr> Title = CStr ''D'', URL = CNaN, Votes = 7, Comments = 1,
              TitleShort = None, Domain_col = None \<rparr>"
  let ?e = "\<lparr> Title = CStr ''E'', URL = CInt 5, Votes = 5, Comments = 2,
              TitleShort = None, Domain_col = None \<rparr>"
  note t = missing_url_unknown [of CNaN example_lib "[?d, ?e]" 0 "[[?d, ?e]]"]
  have ns: "not_string CNaN"
    by (simp add: not_string_def)
  have u: "domain_of example_lib CNaN = Inr ''Unknown''"
    using t ns by blast
  have every: "\<forall>r\<in>set [?d, ?e]. not_string (URL r)"
    by (simp add: not_string_def)
  have "apply_series (domain_of example_lib) (map URL [?d, ?e])
      = Inr (map (\<lambda>r. ''Unknown'') [?d, ?e])"
    using t every by blast
  then have ap: "apply_series (domain_of example_lib) [CNaN, CInt 5] = Inr [''Unknown'', ''Unknown'']"
    by simp
  have "\<not> isl (fst (plot_visualizations example_lib 0 [[?d, ?e]]))"
    by code_simp
  then obtain d where d: "fst (plot_visualizations example_lib 0 [[?d, ?e]]) = Inr d"
    by (cases "fst (plot_visualizations example_lib 0 [[?d, ?e]])") simp_all
  have labs: "\<forall>r\<in>set ([[?d, ?e]] ! 0). not_string (URL r) \<longrightarrow>
      domain_label example_lib r = ''Unknown''
      \<and> (''Unknown'', column_sum (map Votes
            (filter (\<lambda>x. domain_label example_lib x = ''Unknown'') ([[?d, ?e]] ! 0))))
          \<in> set (domain_table example_lib ([[?d, ?e]] ! 0))"
    using t d by blast
  have ind: "?d \<in> set ([[?d, ?e]] ! 0)" and ine: "?e \<in> set ([[?d, ?e]] ! 0)"
    by simp_all
  have nd: "not_string (URL ?d)" and ne: "not_string (URL ?e)"
    by (simp_all add: not_string_def)
  have ld: "domain_label example_lib ?d = ''Unknown''"
    using labs ind nd by blast
  have le: "domain_label example_lib ?e = ''Unknown''"
    using labs ine ne by blast
  have f: "filter (\<lambda>x. domain_label example_lib x = ''Unknown'') [?d, ?e] = [?d, ?e]"
    using ld le by simp
  have "(''Unknown'', column_sum (map Votes
            (filter (\<lambda>x. domain_label example_lib x = ''Unknown'') ([[?d, ?e]] ! 0))))
          \<in> set (domain_table example_lib ([[?d, ?e]] ! 0))"
    using labs ind nd by blast
  then have "(''Unknown'', column_sum (map Votes
            (filter (\<lambda>x. domain_label example_lib x = ''Unknown'') [?d, ?e])))
          \<in> set (domain_table example_lib [?d, ?e])"
    by (simp only: nth_Cons_0)
  then have m: "(''Unknown'', 12) \<in> set (domain_table example_lib [?d, ?e])"
    unfolding f by (simp add: column_sum_def)
  show ?thesis
    using ns u ap d m by blast
qed

section \<open>The order of tied rows\<close>

text \<open>
  The order of rows with equal values is not fixed by what is known of \<open>sort_values\<close>: a
  descending sorter may keep two tied rows in the order of the table, and another may swap
  them.
\<close>

lemma tie_order_not_determined:
  "\<exists>srt1 srt2. desc_sorter srt1 \<and> desc_sorter srt2
     \<and> srt1 [(''A'', 1), (''B'', 1)] = [(''A'', 1), (''B'', 1)]
     \<and> srt2 [(''A'', 1), (''B'', 1)] = [(''B'', 1), (''A'', 1)]"
proof -
  let ?rs = "\<lambda>xs :: (string \<times> rat) list. rev (sort_key snd xs)"
  have "desc_sorter ?rs"
  proof -
    have "desc_by_value (?rs xs)" for xs
    proof -
      have "sorted (map snd (sort_key snd xs))"
        by (rule sorted_sort_key)
      then have "sorted_wrt (\<lambda>a b. snd a \<le> snd b) (sort_key snd xs)"
        by (simp add: sorted_map)
      then show ?thesis
        by (simp add: desc_by_value_def sorted_wrt_rev)
    qed
    then show ?thesis by (simp add: desc_sorter_def)
  qed
  moreover have "?rs [(''A'', 1), (''B'', 1)] = [(''B'', 1), (''A'', 1)]"
    by simp
  moreover have "insertion_sort_desc [(''A'', 1), (''B'', 1)] = [(''A'', 1), (''B'', 1)]"
    by (simp add: insertion_sort_desc_def)
  ultimately show ?thesis
    using insertion_sort_desc_sorter by blast
qed

end
